theory Spec2Isabelle
  imports Complex_Main "HOL-Library.Option_ord" "HOL-Library.Char_ord" "HOL-Library.List_Lexorder"
    "HOL-Library.Multiset"
begin

section \<open>The backends of the inference pipeline (pipelines/inference/backend.py)\<close>

text \<open>
  The module stores the inputs and outputs of a hosted model and attaches ground truth
  to them. \<open>Local\<close> keeps one SQLite table \<open>data\<close>; \<open>Sagemaker\<close> reads JSON-lines
  objects under two S3 prefixes. What the libraries do (pandas, sqlite3, boto3,
  random) is written out in the definitions below, each next to the source line it
  stands for. Exceptions are values: a function that can raise returns
  \<open>py_error + 'a\<close>, with \<open>Inl\<close> for the exception that reaches the caller.
\<close>

subsection \<open>Columns and tables\<close>

text \<open>
  A number in a cell is a Python \<open>int\<close>, which is unbounded, or a \<open>float\<close>. SQLite keeps
  the first as INTEGER and the second as REAL.
\<close>

datatype number = PyInt int | PyFloat real

text \<open>
  The feature columns are the six that \<open>Local.load\<close> selects. Every cell is nullable
  (SQL NULL, pandas NaN/None).
\<close>

record penguin =
  island :: "string option"
  sex :: "string option"
  culmen_length_mm :: "number option"
  culmen_depth_mm :: "number option"
  flipper_length_mm :: "number option"
  body_mass_g :: "number option"

text \<open>The columns both substrates share: the model input, the model output, the time.\<close>

record scored =
  features :: penguin
  prediction :: "string option"
  confidence :: "number option"
  date :: "nat option"

text \<open>The frame \<open>Local.save\<close> builds before it adds the \<open>uuid\<close> column.\<close>

record entry = scored +
  ground_truth :: "string option"

text \<open>A row of the SQLite table \<open>data\<close>.\<close>

record row = entry +
  uuid :: string

text \<open>
  What \<open>load\<close> returns on either substrate: the feature columns, \<open>prediction\<close> and
  \<open>ground_truth\<close>.
\<close>

record sample =
  sample_features :: penguin
  sample_prediction :: "string option"
  sample_ground_truth :: "string option"

text \<open>
  The database file of \<open>Local\<close>: absent, present without the table \<open>data\<close>
  (\<open>sqlite3.connect\<close> creates an empty file), or holding the table, rows in
  insertion order. The columns of the table have the types of the frame that created
  it, and the frames of later calls are taken to have the same, so that a cell is
  stored as it is bound.
\<close>

datatype db = NoFile | NoTable | Table "row list"

definition stored :: "db \<Rightarrow> row list" where
  "stored d = (case d of Table rows \<Rightarrow> rows | _ \<Rightarrow> [])"

text \<open>
  The exceptions that reach a caller. \<open>DatabaseError\<close> is the one of pandas, which is
  not an \<open>sqlite3.Error\<close>: \<open>read_sql_query\<close> and the table lookup of \<open>to_sql\<close> raise it
  in place of the \<open>sqlite3.Error\<close> of their cursor.
\<close>

datatype py_error = ValueError | KeyError | DatabaseError | TransportError | OverflowError

text \<open>
  SQLite integers have 64 bits. Binding a Python \<open>int\<close> outside that range raises
  \<open>OverflowError\<close>; a float or a null always binds.
\<close>

definition sqlite_integer :: "int \<Rightarrow> bool" where
  "sqlite_integer n = (- (2 ^ 63) \<le> n \<and> n < 2 ^ 63)"

definition bindable :: "number option \<Rightarrow> bool" where
  "bindable c = (case c of Some (PyInt n) \<Rightarrow> sqlite_integer n | _ \<Rightarrow> True)"

definition bindable_row :: "row \<Rightarrow> bool" where
  "bindable_row r =
     (bindable (culmen_length_mm (features r)) \<and> bindable (culmen_depth_mm (features r))
      \<and> bindable (flipper_length_mm (features r)) \<and> bindable (body_mass_g (features r))
      \<and> bindable (confidence r))"

subsection \<open>Backend.get_fake_label\<close>

text \<open>
  The global generator of \<open>random\<close> is a stream of raw draws, passed and returned.
  \<open>random.random()\<close> is a 53-bit integer divided by \<open>2^53\<close>, so it lies in \<open>[0, 1)\<close>;
  \<open>random.choice\<close> of a three-element list indexes it below 3.
\<close>

type_synonym rng = "nat \<Rightarrow> nat"

definition draw :: "rng \<Rightarrow> nat \<times> rng" where
  "draw g = (g 0, \<lambda>i. g (Suc i))"

definition random_random :: "nat \<Rightarrow> real" where
  "random_random n = real (n mod 9007199254740992) / 9007199254740992"

definition species_names :: "string list" where
  "species_names = [''Adelie'', ''Chinstrap'', ''Gentoo'']"

definition random_choice :: "nat \<Rightarrow> string" where
  "random_choice n = species_names ! (n mod 3)"

definition get_fake_label :: "string option \<Rightarrow> real \<Rightarrow> rng \<Rightarrow> string option \<times> rng" where
  "get_fake_label pred ground_truth_quality g =
     (let (u, g1) = draw g in
      if random_random u < ground_truth_quality then (pred, g1)
      else (let (k, g2) = draw g1 in (Some (random_choice k), g2)))"

subsection \<open>Local.load\<close>

text \<open>
  \<open>ORDER BY date DESC\<close>: NULL sorts below every value, so it comes last. SQL leaves
  the order of rows with equal dates open; the model keeps them in the order of the
  table, and no theorem below depends on that choice.
\<close>

definition order_by_date_desc :: "row list \<Rightarrow> row list" where
  "order_by_date_desc rows = rev (sort_key date (rev rows))"

text \<open>\<open>LIMIT ?\<close>: a negative limit is no limit in SQLite.\<close>

definition sql_limit :: "int \<Rightarrow> 'a list \<Rightarrow> 'a list" where
  "sql_limit limit xs = (if limit < 0 then xs else take (nat limit) xs)"

definition select_sample :: "row \<Rightarrow> sample" where
  "select_sample r =
     \<lparr>sample_features = features r, sample_prediction = prediction r,
      sample_ground_truth = ground_truth r\<rparr>"

text \<open>
  No file: \<open>None\<close>. Otherwise \<open>read_sql_query\<close> runs the query with \<open>limit\<close> as its
  parameter and raises when the cursor does: the statement is prepared, which fails
  when there is no table, and then the limit is bound, which raises \<open>OverflowError\<close>
  when it does not fit SQLite's 64 bits. \<open>load\<close> catches nothing. The database is
  taken to answer the query: it is not locked by another connection.
\<close>

definition local_load :: "db \<Rightarrow> int \<Rightarrow> py_error + sample list option" where
  "local_load d limit =
     (case d of
        NoFile \<Rightarrow> Inr None
      | NoTable \<Rightarrow> Inl DatabaseError
      | Table rows \<Rightarrow>
          if sqlite_integer limit
          then Inr (Some (map select_sample (sql_limit limit (order_by_date_desc rows))))
          else Inl OverflowError)"

subsection \<open>Local.save\<close>

text \<open>
  An item of \<open>model_output\<close> is a dict. \<open>None\<close> in a field says that the dict has no
  such key, so that \<open>item["prediction"]\<close> raises \<open>KeyError\<close>; \<open>Some v\<close> is the value under
  the key, which can itself be null (\<open>Some None\<close>: the key is there and holds \<open>None\<close> or
  NaN).
\<close>

record output_item =
  prediction_key :: "string option option"
  confidence_key :: "number option option"

definition getitem :: "'a option \<Rightarrow> py_error + 'a" where
  "getitem v = (case v of None \<Rightarrow> Inl KeyError | Some x \<Rightarrow> Inr x)"

text \<open>The list comprehension \<open>[item[key] for item in model_output]\<close>.\<close>

fun comprehension :: "('b \<Rightarrow> 'a option) \<Rightarrow> 'b list \<Rightarrow> py_error + 'a list" where
  "comprehension key [] = Inr []"
| "comprehension key (item # items) =
     (case getitem (key item) of
        Inl e \<Rightarrow> Inl e
      | Inr v \<Rightarrow> (case comprehension key items of Inl e \<Rightarrow> Inl e | Inr vs \<Rightarrow> Inr (v # vs)))"

definition nan_penguin :: penguin where
  "nan_penguin =
     \<lparr>island = None, sex = None, culmen_length_mm = None, culmen_depth_mm = None,
      flipper_length_mm = None, body_mass_g = None\<rparr>"

definition nan_entry :: entry where
  "nan_entry =
     \<lparr>features = nan_penguin, prediction = None, confidence = None, date = None,
      ground_truth = None\<rparr>"

text \<open>
  \<open>data[column] = values\<close> with a list. A frame with rows takes a list of its own
  length and raises \<open>ValueError\<close> otherwise. A frame without rows takes its index from
  a non-empty list: it grows to one row per value, every other column NaN.
\<close>

definition setitem :: "('v \<Rightarrow> entry \<Rightarrow> entry) \<Rightarrow> 'v list \<Rightarrow> entry list \<Rightarrow> py_error + entry list" where
  "setitem put vs frame =
     (if frame = [] \<and> vs \<noteq> [] then Inr (map (\<lambda>v. put v nan_entry) vs)
      else if length vs \<noteq> length frame then Inl ValueError
      else Inr (map2 put vs frame))"

text \<open>
  Lines 225 to 227: the two columns are overwritten when the output is not empty, with
  the values under the two keys as they are; no value is inspected.
\<close>

definition set_outputs :: "output_item list option \<Rightarrow> entry list \<Rightarrow> py_error + entry list" where
  "set_outputs model_output frame =
     (case model_output of
        None \<Rightarrow> Inr frame
      | Some items \<Rightarrow>
          if length items > 0 then
            (case comprehension prediction_key items of
               Inl e \<Rightarrow> Inl e
             | Inr ps \<Rightarrow>
                 (case setitem (\<lambda>p e. e\<lparr>prediction := p\<rparr>) ps frame of
                    Inl e \<Rightarrow> Inl e
                  | Inr frame1 \<Rightarrow>
                      (case comprehension confidence_key items of
                         Inl e \<Rightarrow> Inl e
                       | Inr cs \<Rightarrow> setitem (\<lambda>c e. e\<lparr>confidence := c\<rparr>) cs frame1)))
          else Inr frame)"

text \<open>Lines 208 to 221: the copy of the input with the four added columns.\<close>

definition new_entry :: "nat \<Rightarrow> penguin \<Rightarrow> entry" where
  "new_entry now x =
     \<lparr>features = x, prediction = None, confidence = None, date = Some now,
      ground_truth = None\<rparr>"

definition with_uuid :: "entry \<Rightarrow> string \<Rightarrow> row" where
  "with_uuid e u =
     \<lparr>features = features e, prediction = prediction e, confidence = confidence e,
      date = date e, ground_truth = ground_truth e, uuid = u\<rparr>"

text \<open>Line 231: one fresh identifier per row of the frame, \<open>uuid4 i\<close> for row \<open>i\<close>.\<close>

definition add_uuids :: "(nat \<Rightarrow> string) \<Rightarrow> entry list \<Rightarrow> row list" where
  "add_uuids uuid4 frame = map2 with_uuid frame (map uuid4 [0..<length frame])"

text \<open>
  The storage layer of one call. It works; or \<open>sqlite3.connect\<close> raises
  \<open>sqlite3.Error\<close>; or the query by which \<open>to_sql\<close> first looks the table up fails (a
  locked database), which pandas reports as its own \<open>DatabaseError\<close>; or a statement of
  \<open>to_sql\<close> raises \<open>sqlite3.Error\<close> before a row is bound (creating the table, preparing
  the \<open>INSERT\<close>), its transaction rolled back.
\<close>

datatype save_fault = SaveOk | ConnectFails | LookupFails | WriteFails

definition connect :: "db \<Rightarrow> db" where
  "connect d = (if d = NoFile then NoTable else d)"

definition to_sql :: "row list \<Rightarrow> db \<Rightarrow> db" where
  "to_sql rows d = Table (stored d @ rows)"

text \<open>
  \<open>save\<close> returns the exception that reaches the caller, if any, and the database it
  leaves. Only \<open>sqlite3.Error\<close> is caught. In \<open>to_sql\<close> the rows are bound one by one
  inside one transaction: an integer that does not fit raises \<open>OverflowError\<close>, the
  rows are rolled back, and the table, created before, stays.
\<close>

definition local_save :: "save_fault \<Rightarrow> nat \<Rightarrow> (nat \<Rightarrow> string) \<Rightarrow> penguin list \<Rightarrow> output_item list option \<Rightarrow> db
    \<Rightarrow> (py_error + unit) \<times> db" where
  "local_save fault now uuid4 model_input model_output d =
     (if fault = ConnectFails then (Inr (), d)
      else
        (case set_outputs model_output (map (new_entry now) model_input) of
           Inl e \<Rightarrow> (Inl e, connect d)
         | Inr frame \<Rightarrow>
             if fault = LookupFails then (Inl DatabaseError, connect d)
             else if fault = WriteFails then (Inr (), connect d)
             else if list_all bindable_row (add_uuids uuid4 frame)
               then (Inr (), to_sql (add_uuids uuid4 frame) (connect d))
               else (Inl OverflowError, Table (stored d))))"

subsection \<open>Local.label\<close>

text \<open>\<open>UPDATE data SET ground_truth = ? WHERE uuid = ?\<close>.\<close>

definition execute_update :: "string option \<Rightarrow> string \<Rightarrow> row list \<Rightarrow> row list" where
  "execute_update l u rows = map (\<lambda>r. if uuid r = u then r\<lparr>ground_truth := l\<rparr> else r) rows"

text \<open>
  The storage layer of one call of \<open>label\<close>: it works, or one statement raises: the
  connection, the \<open>SELECT\<close>, the \<open>i\<close>-th \<open>UPDATE\<close> or the \<open>COMMIT\<close>.
\<close>

datatype label_fault = LabelOk | ConnectRaises | SelectRaises | UpdateRaises nat | CommitRaises

text \<open>
  The loop of lines 265 to 271 over the unlabeled rows, on the open transaction \<open>t\<close>.
  \<open>None\<close>: an \<open>UPDATE\<close> raised.
\<close>

fun label_loop :: "label_fault \<Rightarrow> real \<Rightarrow> nat \<Rightarrow> row list \<Rightarrow> rng \<Rightarrow> row list \<Rightarrow> row list option \<times> rng" where
  "label_loop fault q i [] g t = (Some t, g)"
| "label_loop fault q i (r # rs) g t =
     (let (l, g1) = get_fake_label (prediction r) q g in
      if fault = UpdateRaises i then (None, g1)
      else label_loop fault q (Suc i) rs g1 (execute_update l (uuid r) t))"

definition unlabeled :: "row list \<Rightarrow> row list" where
  "unlabeled rows = filter (\<lambda>r. ground_truth r = None) rows"

text \<open>
  \<open>label\<close> returns its count, the database and the generator. Every exception inside
  the \<open>try\<close> gives 0, and the connection is closed without a commit, which rolls the
  transaction back.
\<close>

definition local_label :: "label_fault \<Rightarrow> real \<Rightarrow> rng \<Rightarrow> db \<Rightarrow> nat \<times> db \<times> rng" where
  "local_label fault ground_truth_quality g d =
     (case d of
        NoFile \<Rightarrow> (0, d, g)
      | NoTable \<Rightarrow> (0, d, g)
      | Table rows \<Rightarrow>
          if fault = ConnectRaises \<or> fault = SelectRaises then (0, d, g)
          else
            (let df = unlabeled rows in
             if df = [] then (0, d, g)
             else
               (case label_loop fault ground_truth_quality 0 df g rows of
                  (None, g1) \<Rightarrow> (0, d, g1)
                | (Some t, g1) \<Rightarrow>
                    if fault = CommitRaises then (0, d, g1) else (length df, Table t, g1))))"

subsection \<open>Local.invoke\<close>

text \<open>
  What the network call can do: answer with a JSON body, answer with a body that is not
  JSON, fail to connect, or run into the timeout.
\<close>

datatype 'r reply = Json 'r | NotJson | Unreachable | TimedOut

text \<open>
  \<open>requests.post(..., timeout=5)\<close> and \<open>predictions.json()\<close> inside
  \<open>try ... except Exception: return None\<close>.
\<close>

definition local_invoke :: "('p \<Rightarrow> 'r reply) \<Rightarrow> 'p \<Rightarrow> py_error + 'r option" where
  "local_invoke post payload = (case post payload of Json r \<Rightarrow> Inr (Some r) | _ \<Rightarrow> Inr None)"

subsection \<open>Sagemaker: the objects under the two prefixes\<close>

text \<open>A row of the table built from the capture objects.\<close>

record captured = scored +
  event_id :: string
  species :: "string option"

text \<open>
  A line of a capture object, its two JSON payloads parsed: the frame of the input
  (whichever of the three shapes it came in) and the list under \<open>predictions\<close>.
\<close>

record capture_line =
  inference_time :: nat
  capture_event_id :: string
  endpoint_input :: "penguin list"
  endpoint_output :: "output_item list"

text \<open>A line of a ground-truth object: \<open>eventMetadata.eventId\<close> and \<open>groundTruthData.data\<close>.\<close>

record gt_line =
  gt_event_id :: string
  gt_data :: "string option list"

text \<open>
  The bucket: the objects listed under each prefix, each object the list of its lines.
\<close>

record s3 =
  capture_objects :: "capture_line list list"
  ground_truth_objects :: "gt_line list list"

text \<open>\<open>_load_files\<close>: \<open>None\<close> when the listing is empty, else every line of every object.\<close>

definition load_files :: "'a list list \<Rightarrow> 'a list option" where
  "load_files files = (if length files = 0 then None else Some (concat files))"

text \<open>
  \<open>pd.concat\<close> of the frames made from the lines raises \<open>ValueError\<close> when there is no
  line at all (objects without lines).
\<close>

definition pd_concat :: "'a list list \<Rightarrow> py_error + 'a list" where
  "pd_concat dfs = (if dfs = [] then Inl ValueError else Inr (concat dfs))"

definition load_ground_truth_files :: "gt_line list list \<Rightarrow> py_error + (string \<times> string option list) list" where
  "load_ground_truth_files files =
     (case load_files files of
        None \<Rightarrow> Inr []
      | Some df \<Rightarrow> pd_concat (map (\<lambda>l. [(gt_event_id l, gt_data l)]) df))"

text \<open>
  The frame of a list of dicts has a column for every key that some dict has, and a
  null where a dict has not the key.
\<close>

definition cell :: "'a option option \<Rightarrow> 'a option" where
  "cell v = (case v of None \<Rightarrow> None | Some x \<Rightarrow> x)"

text \<open>
  \<open>pd.concat\<close> keeps the union of the columns. So the table of the captured rows has
  the column \<open>prediction\<close>, or \<open>confidence\<close>, when some item of some line has that key.
\<close>

definition has_column :: "(output_item \<Rightarrow> 'a option) \<Rightarrow> capture_line list \<Rightarrow> bool" where
  "has_column key df = list_ex (\<lambda>l. list_ex (\<lambda>i. key i \<noteq> None) (endpoint_output l)) df"

text \<open>
  \<open>pd.concat([df, predictions], axis=1)\<close> aligns the two frames on the row number; the
  shorter one is filled with NaN.
\<close>

fun concat_columns :: "penguin list \<Rightarrow> output_item list \<Rightarrow> (penguin \<times> output_item) list" where
  "concat_columns [] [] = []"
| "concat_columns (x # xs) [] =
     (x, \<lparr>prediction_key = None, confidence_key = None\<rparr>) # concat_columns xs []"
| "concat_columns [] (y # ys) = (nan_penguin, y) # concat_columns [] ys"
| "concat_columns (x # xs) (y # ys) = (x, y) # concat_columns xs ys"

definition process_row :: "capture_line \<Rightarrow> captured list" where
  "process_row l =
     map (\<lambda>(x, y).
        \<lparr>features = x, prediction = cell (prediction_key y), confidence = cell (confidence_key y),
         date = Some (inference_time l), event_id = capture_event_id l, species = None\<rparr>)
       (concat_columns (endpoint_input l) (endpoint_output l))"

text \<open>
  \<open>sort_values(by="date", ascending=False)\<close> sorts with quicksort, which is not
  stable: the rows come out by descending date, those with equal dates in an order that
  depends on the size of the table. The sort is the argument \<open>sort_values\<close> of the
  loader; a theorem that needs more of it than being a function says so.
\<close>

definition load_collected_data_files :: "(captured list \<Rightarrow> captured list) \<Rightarrow> capture_line list list
    \<Rightarrow> py_error + captured list" where
  "load_collected_data_files sort_values files =
     (case load_files files of
        None \<Rightarrow> Inr []
      | Some df \<Rightarrow>
          (case pd_concat (map process_row df) of
             Inl e \<Rightarrow> Inl e
           | Inr rows \<Rightarrow> Inr (sort_values rows)))"

subsection \<open>Sagemaker._load_collected_data: the join\<close>

text \<open>
  \<open>explode("species")\<close>: one row per element of the list, in order; an empty list
  gives one row with NaN.
\<close>

definition explode :: "(string \<times> string option list) list \<Rightarrow> (string \<times> string option) list" where
  "explode gt = concat (map (\<lambda>(e, ls). if ls = [] then [(e, None)] else map (Pair e) ls) gt)"

text \<open>
  \<open>groupby(...).cumcount()\<close>: each row gets the number of earlier rows with its key.
\<close>

fun cumcount_from :: "'k list \<Rightarrow> 'k list \<Rightarrow> nat list" where
  "cumcount_from seen [] = []"
| "cumcount_from seen (k # ks) = count_list seen k # cumcount_from (seen @ [k]) ks"

definition cumcount :: "'k list \<Rightarrow> nat list" where
  "cumcount ks = cumcount_from [] ks"

text \<open>The two key columns of a table: \<open>event_id\<close> and \<open>index\<close>.\<close>

definition keys :: "string list \<Rightarrow> (string \<times> nat) list" where
  "keys es = zip es (cumcount es)"

text \<open>
  \<open>data.merge(ground_truth, on=["event_id", "index"], how="left")\<close>, then \<open>species_y\<close>
  renamed to \<open>species\<close> and \<open>species_x\<close> dropped: the left rows in their order, each
  once per right row with its key and once, with NaN, when there is none.
\<close>

definition merge_left :: "(captured \<times> string \<times> nat) list \<Rightarrow> ((string \<times> string option) \<times> string \<times> nat) list
    \<Rightarrow> captured list" where
  "merge_left left right =
     concat (map (\<lambda>(l, k).
        (case filter (\<lambda>(g, k'). k' = k) right of
           [] \<Rightarrow> [l\<lparr>species := None\<rparr>]
         | ms \<Rightarrow> map (\<lambda>(g, k'). l\<lparr>species := snd g\<rparr>) ms)) left)"

text \<open>Lines 649 to 666, on the two tables the loaders returned.\<close>

definition join_ground_truth :: "captured list \<Rightarrow> (string \<times> string option list) list \<Rightarrow> captured list" where
  "join_ground_truth data truth =
     (if length data = 0 then []
      else if length truth > 0 then
        (let gt = explode truth in
         merge_left (zip data (keys (map event_id data))) (zip gt (keys (map fst gt))))
      else data)"

definition load_collected_data :: "(captured list \<Rightarrow> captured list) \<Rightarrow> s3 \<Rightarrow> py_error + captured list" where
  "load_collected_data sort_values s =
     (case load_collected_data_files sort_values (capture_objects s) of
        Inl e \<Rightarrow> Inl e
      | Inr data \<Rightarrow>
          (case load_ground_truth_files (ground_truth_objects s) of
             Inl e \<Rightarrow> Inl e
           | Inr truth \<Rightarrow> Inr (join_ground_truth data truth)))"

definition load_unlabeled_data :: "(captured list \<Rightarrow> captured list) \<Rightarrow> s3 \<Rightarrow> py_error + captured list" where
  "load_unlabeled_data sort_values s =
     (case load_collected_data sort_values s of
        Inl e \<Rightarrow> Inl e
      | Inr data \<Rightarrow> Inr (if data = [] then data else filter (\<lambda>r. species r = None) data))"

subsection \<open>Sagemaker.load\<close>

text \<open>\<open>DataFrame.head(n)\<close>: the first \<open>n\<close> rows; for a negative \<open>n\<close>, all but the last \<open>-n\<close>.\<close>

definition head :: "int \<Rightarrow> 'a list \<Rightarrow> 'a list" where
  "head n xs = (if 0 \<le> n then take (nat n) xs else take (length xs - nat (- n)) xs)"

text \<open>
  \<open>species\<close> renamed to \<open>ground_truth\<close>; \<open>date\<close>, \<open>event_id\<close> and \<open>confidence\<close> dropped.
  \<open>drop\<close> raises \<open>KeyError\<close> for a column that the table has not: \<open>date\<close> and
  \<open>event_id\<close> are always there, \<open>confidence\<close> only when a captured item has the key.
\<close>

definition rename_drop :: "captured \<Rightarrow> sample" where
  "rename_drop r =
     \<lparr>sample_features = features r, sample_prediction = prediction r,
      sample_ground_truth = species r\<rparr>"

definition sagemaker_load :: "(captured list \<Rightarrow> captured list) \<Rightarrow> s3 \<Rightarrow> int \<Rightarrow> py_error + sample list" where
  "sagemaker_load sort_values s limit =
     (case load_collected_data sort_values s of
        Inl e \<Rightarrow> Inl e
      | Inr data \<Rightarrow>
          if data = [] then Inr []
          else if \<not> has_column confidence_key (concat (capture_objects s)) then Inl KeyError
          else Inr (head limit (map rename_drop (filter (\<lambda>r. species r \<noteq> None) data))))"

subsection \<open>Sagemaker.label\<close>

text \<open>The inner loop: one fake label per row of a group, in order.\<close>

fun fake_labels :: "real \<Rightarrow> captured list \<Rightarrow> rng \<Rightarrow> string option list \<times> rng" where
  "fake_labels q [] g = ([], g)"
| "fake_labels q (r # rs) g =
     (let (l, g1) = get_fake_label (prediction r) q g;
          (ls, g2) = fake_labels q rs g1
      in (l # ls, g2))"

text \<open>The outer loop: \<open>groupby("event_id")\<close> yields the groups by ascending key.\<close>

fun label_groups :: "real \<Rightarrow> string list \<Rightarrow> captured list \<Rightarrow> rng \<Rightarrow> gt_line list \<times> rng" where
  "label_groups q [] data g = ([], g)"
| "label_groups q (e # es) data g =
     (let (ls, g1) = fake_labels q (filter (\<lambda>r. event_id r = e) data) g;
          (records, g2) = label_groups q es data g1
      in (\<lparr>gt_event_id = e, gt_data = ls\<rparr> # records, g2))"

text \<open>
  \<open>label\<close> returns its count, the object it puts under the ground-truth prefix
  (\<open>None\<close>: it puts nothing) and the generator. \<open>row["prediction"]\<close> raises \<open>KeyError\<close>
  at the first row when the table has no such column.
\<close>

definition sagemaker_label :: "(captured list \<Rightarrow> captured list) \<Rightarrow> s3 \<Rightarrow> real \<Rightarrow> rng
    \<Rightarrow> py_error + nat \<times> gt_line list option \<times> rng" where
  "sagemaker_label sort_values s ground_truth_quality g =
     (case load_unlabeled_data sort_values s of
        Inl e \<Rightarrow> Inl e
      | Inr data \<Rightarrow>
          if data = [] then Inr (0, None, g)
          else if \<not> has_column prediction_key (concat (capture_objects s)) then Inl KeyError
          else
            (let (records, g1) =
                   label_groups ground_truth_quality (sort (remdups (map event_id data))) data g
             in Inr (length data, Some records, g1)))"

subsection \<open>Sagemaker.invoke\<close>

text \<open>
  \<open>deployment_client.predict\<close> is called outside any \<open>try\<close>, so its failure reaches
  the caller. The response holds the list under \<open>predictions\<close> (\<open>None\<close>: no such key);
  selecting the two columns raises \<open>KeyError\<close> when no item has one of them.
\<close>

definition sagemaker_invoke :: "('p \<Rightarrow> output_item list option reply) \<Rightarrow> 'p
    \<Rightarrow> py_error + (string option \<times> number option) list" where
  "sagemaker_invoke predict payload =
     (case predict payload of
        Json response \<Rightarrow>
          (case getitem response of
             Inl e \<Rightarrow> Inl e
           | Inr items \<Rightarrow>
               if list_ex (\<lambda>i. prediction_key i \<noteq> None) items
                  \<and> list_ex (\<lambda>i. confidence_key i \<noteq> None) items
               then Inr (map (\<lambda>i. (cell (prediction_key i), cell (confidence_key i))) items)
               else Inl KeyError)
      | _ \<Rightarrow> Inl TransportError)"

subsection \<open>Concrete stores\<close>

text \<open>
  A penguin, and the store of the scenario: two rows saved with the predictions
  \<open>Adelie\<close> and \<open>Gentoo\<close> at time 1, one row saved without output at time 2, on a
  machine that had no database file.
\<close>

definition biscoe :: penguin where
  "biscoe = nan_penguin\<lparr>island := Some ''Biscoe'', body_mass_g := Some (PyFloat 4200)\<rparr>"

definition scenario :: db where
  "scenario =
     snd (local_save SaveOk 2 (\<lambda>i. ''c'') [biscoe] None
       (snd (local_save SaveOk 1 (\<lambda>i. if i = 0 then ''a'' else ''b'') [biscoe, biscoe]
         (Some [\<lparr>prediction_key = Some (Some ''Adelie''),
                  confidence_key = Some (Some (PyFloat 0.9))\<rparr>,
                \<lparr>prediction_key = Some (Some ''Gentoo''),
                  confidence_key = Some (Some (PyFloat 0.8))\<rparr>]) NoFile)))"

text \<open>A bucket whose ground-truth prefix holds one object without lines.\<close>

definition marker_only :: s3 where
  "marker_only = \<lparr>capture_objects = [], ground_truth_objects = [[]]\<rparr>"

text \<open>A table with one row that has its ground truth and one that has not.\<close>

definition reviewed :: "row list" where
  "reviewed =
     [\<lparr>features = biscoe, prediction = Some ''Adelie'', confidence = Some (PyFloat 0.9), date = Some 1,
       ground_truth = Some ''Gentoo'', uuid = ''a''\<rparr>,
      \<lparr>features = biscoe, prediction = Some ''Chinstrap'', confidence = Some (PyFloat 0.7), date = Some 2,
       ground_truth = None, uuid = ''b''\<rparr>]"


definition one_output :: "output_item list" where
  "one_output =
     [\<lparr>prediction_key = Some (Some ''Adelie''), confidence_key = Some (Some (PyFloat 0.9))\<rparr>]"


text \<open>
  Captured rows of two events, and ground-truth tables for the event \<open>E1\<close>: one with a
  label, one whose label list is empty.
\<close>

definition capture_e1 :: captured where
  "capture_e1 =
     \<lparr>features = biscoe, prediction = Some ''Adelie'', confidence = Some (PyFloat 0.9), date = Some 5,
      event_id = ''E1'', species = None\<rparr>"

definition capture_e2 :: captured where
  "capture_e2 =
     \<lparr>features = biscoe, prediction = Some ''Gentoo'', confidence = Some (PyFloat 0.8), date = Some 4,
      event_id = ''E2'', species = None\<rparr>"

definition three_captured :: "captured list" where
  "three_captured = [capture_e1, capture_e1, capture_e2]"

definition one_label :: "(string \<times> string option list) list" where
  "one_label = [(''E1'', [Some ''Adelie''])]"

definition no_label :: "(string \<times> string option list) list" where
  "no_label = [(''E1'', [])]"





subsection \<open>An abbreviation for the proofs\<close>


section \<open>Properties\<close>

subsection \<open>The scenario store\<close>

lemma scenario_rows:
  "scenario = Table
     [\<lparr>features = biscoe, prediction = Some ''Adelie'', confidence = Some (PyFloat 0.9), date = Some 1,
       ground_truth = None, uuid = ''a''\<rparr>,
      \<lparr>features = biscoe, prediction = Some ''Gentoo'', confidence = Some (PyFloat 0.8), date = Some 1,
       ground_truth = None, uuid = ''b''\<rparr>,
      \<lparr>features = biscoe, prediction = None, confidence = None, date = Some 2,
       ground_truth = None, uuid = ''c''\<rparr>]"
  by (simp add: scenario_def local_save_def set_outputs_def setitem_def getitem_def new_entry_def
      add_uuids_def with_uuid_def to_sql_def connect_def stored_def upt_rec bindable_row_def
      bindable_def biscoe_def nan_penguin_def)

subsection \<open>The fake label\<close>

lemma random_random_less_one: "random_random n < 1"
  by (simp add: random_random_def)

lemma get_fake_label_one: "get_fake_label p 1 g = (p, snd (draw g))"
  by (simp add: get_fake_label_def random_random_less_one split: prod.splits)

lemma get_fake_label_cases:
  "fst (get_fake_label p q g) = p
     \<or> fst (get_fake_label p q g) \<in> {Some ''Adelie'', Some ''Chinstrap'', Some ''Gentoo''}"
  "1 \<le> q \<Longrightarrow> fst (get_fake_label p q g) = p"
  "q \<le> 0 \<Longrightarrow> fst (get_fake_label p q g) \<in> {Some ''Adelie'', Some ''Chinstrap'', Some ''Gentoo''}"
proof -
  have names: "Some (random_choice k) \<in> {Some ''Adelie'', Some ''Chinstrap'', Some ''Gentoo''}" for k
  proof -
    have "k mod 3 = 0 \<or> k mod 3 = 1 \<or> k mod 3 = 2" by arith
    then show ?thesis
      by (auto simp add: random_choice_def species_names_def)
  qed
  have low: "0 \<le> random_random n" for n
    by (simp add: random_random_def)
  have label: "fst (get_fake_label p q g)
      = (if random_random (g 0) < q then p else Some (random_choice (g 1)))"
    by (simp add: get_fake_label_def draw_def)
  show "fst (get_fake_label p q g) = p
     \<or> fst (get_fake_label p q g) \<in> {Some ''Adelie'', Some ''Chinstrap'', Some ''Gentoo''}"
    unfolding label using names [of "g 1"] by (cases "random_random (g 0) < q") simp_all
  show "fst (get_fake_label p q g) = p" if "1 \<le> q"
  proof -
    from that random_random_less_one [of "g 0"] have "random_random (g 0) < q" by simp
    then show ?thesis unfolding label by simp
  qed
  show "fst (get_fake_label p q g) \<in> {Some ''Adelie'', Some ''Chinstrap'', Some ''Gentoo''}" if "q \<le> 0"
  proof -
    from that low [of "g 0"] have "\<not> random_random (g 0) < q" by simp
    then show ?thesis unfolding label using names [of "g 1"] by simp
  qed
qed

subsection \<open>The loop of Local.label\<close>

lemma label_loop_fault_fires:
  "i \<le> k \<Longrightarrow> k < i + length rs \<Longrightarrow> fst (label_loop (UpdateRaises k) q i rs g t) = None"
proof (induction rs arbitrary: i g t)
  case Nil
  then show ?case by simp
next
  case (Cons r rs)
  show ?case
  proof (cases "k = i")
    case True
    then show ?thesis by (simp split: prod.splits)
  next
    case False
    with Cons.prems have "Suc i \<le> k" "k < Suc i + length rs" by simp_all
    from Cons.IH [OF this] False show ?thesis by (simp split: prod.splits)
  qed
qed

lemma label_loop_updates:
  "label_loop LabelOk q i rs g t = (r, g') \<Longrightarrow>
     \<exists>ls. length ls = length rs \<and>
       r = Some (foldl (\<lambda>t (l, x). execute_update l (uuid x) t) t (zip ls rs))"
proof (induction rs arbitrary: i g t)
  case Nil
  then show ?case by simp
next
  case (Cons x rs)
  obtain l g1 where l: "get_fake_label (prediction x) q g = (l, g1)"
    by (cases "get_fake_label (prediction x) q g")
  with Cons.prems have "label_loop LabelOk q (Suc i) rs g1 (execute_update l (uuid x) t) = (r, g')"
    by simp
  from Cons.IH [OF this] obtain ls where
    "length ls = length rs"
    "r = Some (foldl (\<lambda>t (l, x). execute_update l (uuid x) t) (execute_update l (uuid x) t) (zip ls rs))"
    by blast
  then have "length (l # ls) = length (x # rs) \<and>
     r = Some (foldl (\<lambda>t (l, x). execute_update l (uuid x) t) t (zip (l # ls) (x # rs)))"
    by simp
  then show ?case by blast
qed

lemma label_loop_completes: "fst (label_loop LabelOk q i rs g t) \<noteq> None"
  using label_loop_updates [of q i rs g t] by (cases "label_loop LabelOk q i rs g t") auto

lemma local_label_count:
  "fst (local_label LabelOk q g (Table rows)) = length (unlabeled rows)"
  using label_loop_completes [of q 0 "unlabeled rows" g rows]
  by (auto simp add: local_label_def Let_def split: prod.splits option.splits)

lemma label_loop_idle:
  "\<forall>k. fault = UpdateRaises k \<longrightarrow> k < i \<or> i + length rs \<le> k \<Longrightarrow>
     label_loop fault q i rs g t = label_loop LabelOk q i rs g t"
proof (induction rs arbitrary: i g t)
  case Nil
  then show ?case by simp
next
  case (Cons r rs)
  from Cons.prems have here: "fault \<noteq> UpdateRaises i" by auto
  from Cons.prems have "\<forall>k. fault = UpdateRaises k \<longrightarrow> k < Suc i \<or> Suc i + length rs \<le> k"
    by auto
  from Cons.IH [OF this] here show ?case
    by (simp split: prod.splits)
qed

lemma execute_update_nth:
  "j < length t \<Longrightarrow>
     execute_update l u t ! j = (if uuid (t ! j) = u then (t ! j)\<lparr>ground_truth := l\<rparr> else t ! j)"
  by (simp add: execute_update_def)

lemma length_execute_update: "length (execute_update l u t) = length t"
  by (simp add: execute_update_def)

lemma label_loop_pointwise:
  assumes "distinct (map uuid rs)"
  shows "\<exists>t'. fst (label_loop LabelOk q i rs g t) = Some t' \<and> length t' = length t
     \<and> (\<forall>j<length t.
           (uuid (t ! j) \<notin> uuid ` set rs \<longrightarrow> t' ! j = t ! j)
         \<and> (\<forall>r\<in>set rs. uuid r = uuid (t ! j) \<longrightarrow>
               t' ! j = (t ! j)\<lparr>ground_truth := ground_truth (t' ! j)\<rparr>
               \<and> (ground_truth (t' ! j) = prediction r
                    \<or> ground_truth (t' ! j) \<in> {Some ''Adelie'', Some ''Chinstrap'', Some ''Gentoo''})
               \<and> (1 \<le> q \<longrightarrow> ground_truth (t' ! j) = prediction r)
               \<and> (q \<le> 0 \<longrightarrow>
                    ground_truth (t' ! j) \<in> {Some ''Adelie'', Some ''Chinstrap'', Some ''Gentoo''})))"
  using assms
proof (induction rs arbitrary: i g t)
  case Nil
  then show ?case by simp
next
  case (Cons r rs)
  obtain l g1 where draw: "get_fake_label (prediction r) q g = (l, g1)"
    by (cases "get_fake_label (prediction r) q g")
  then have l: "l = fst (get_fake_label (prediction r) q g)" by simp
  let ?t1 = "execute_update l (uuid r) t"
  from Cons.prems have dist: "distinct (map uuid rs)" and fresh: "uuid r \<notin> uuid ` set rs"
    by simp_all
  from Cons.IH [OF dist, of "Suc i" g1 ?t1] obtain t' where
    t': "fst (label_loop LabelOk q (Suc i) rs g1 ?t1) = Some t'" "length t' = length ?t1"
    and rest: "\<forall>j<length ?t1.
           (uuid (?t1 ! j) \<notin> uuid ` set rs \<longrightarrow> t' ! j = ?t1 ! j)
         \<and> (\<forall>x\<in>set rs. uuid x = uuid (?t1 ! j) \<longrightarrow>
               t' ! j = (?t1 ! j)\<lparr>ground_truth := ground_truth (t' ! j)\<rparr>
               \<and> (ground_truth (t' ! j) = prediction x
                    \<or> ground_truth (t' ! j) \<in> {Some ''Adelie'', Some ''Chinstrap'', Some ''Gentoo''})
               \<and> (1 \<le> q \<longrightarrow> ground_truth (t' ! j) = prediction x)
               \<and> (q \<le> 0 \<longrightarrow>
                    ground_truth (t' ! j) \<in> {Some ''Adelie'', Some ''Chinstrap'', Some ''Gentoo''}))"
    by blast
  have run: "fst (label_loop LabelOk q i (r # rs) g t) = Some t'"
    using draw t'(1) by simp
  have len: "length t' = length t"
    using t'(2) by (simp add: length_execute_update)
  have step: "(uuid (t ! j) \<notin> uuid ` set (r # rs) \<longrightarrow> t' ! j = t ! j)
         \<and> (\<forall>x\<in>set (r # rs). uuid x = uuid (t ! j) \<longrightarrow>
               t' ! j = (t ! j)\<lparr>ground_truth := ground_truth (t' ! j)\<rparr>
               \<and> (ground_truth (t' ! j) = prediction x
                    \<or> ground_truth (t' ! j) \<in> {Some ''Adelie'', Some ''Chinstrap'', Some ''Gentoo''})
               \<and> (1 \<le> q \<longrightarrow> ground_truth (t' ! j) = prediction x)
               \<and> (q \<le> 0 \<longrightarrow>
                    ground_truth (t' ! j) \<in> {Some ''Adelie'', Some ''Chinstrap'', Some ''Gentoo''}))"
    if j: "j < length t" for j
  proof (cases "uuid (t ! j) = uuid r")
    case True
    then have t1: "?t1 ! j = (t ! j)\<lparr>ground_truth := l\<rparr>"
      using j by (simp add: execute_update_nth)
    with True fresh have "uuid (?t1 ! j) \<notin> uuid ` set rs" by simp
    with rest j have same: "t' ! j = ?t1 ! j"
      by (simp add: length_execute_update)
    have mine: "x = r \<or> uuid x \<noteq> uuid (t ! j)" if "x \<in> set (r # rs)" for x
    proof (cases "x = r")
      case True
      then show ?thesis by simp
    next
      case False
      with that have "uuid x \<in> uuid ` set rs" by simp
      with fresh have "uuid x \<noteq> uuid r" by metis
      with \<open>uuid (t ! j) = uuid r\<close> show ?thesis by simp
    qed
    from same t1 have new: "t' ! j = (t ! j)\<lparr>ground_truth := l\<rparr>" by simp
    then have gt: "ground_truth (t' ! j) = l" by simp
    have "t' ! j = (t ! j)\<lparr>ground_truth := ground_truth (t' ! j)\<rparr>
        \<and> (ground_truth (t' ! j) = prediction r
             \<or> ground_truth (t' ! j) \<in> {Some ''Adelie'', Some ''Chinstrap'', Some ''Gentoo''})
        \<and> (1 \<le> q \<longrightarrow> ground_truth (t' ! j) = prediction r)
        \<and> (q \<le> 0 \<longrightarrow>
             ground_truth (t' ! j) \<in> {Some ''Adelie'', Some ''Chinstrap'', Some ''Gentoo''})"
      unfolding gt using new get_fake_label_cases [where p = "prediction r" and q = q and g = g]
      unfolding l by blast
    with True mine show ?thesis by auto
  next
    case False
    then have t1: "?t1 ! j = t ! j"
      using j by (simp add: execute_update_nth)
    from rest j have "(uuid (?t1 ! j) \<notin> uuid ` set rs \<longrightarrow> t' ! j = ?t1 ! j)
         \<and> (\<forall>x\<in>set rs. uuid x = uuid (?t1 ! j) \<longrightarrow>
               t' ! j = (?t1 ! j)\<lparr>ground_truth := ground_truth (t' ! j)\<rparr>
               \<and> (ground_truth (t' ! j) = prediction x
                    \<or> ground_truth (t' ! j) \<in> {Some ''Adelie'', Some ''Chinstrap'', Some ''Gentoo''})
               \<and> (1 \<le> q \<longrightarrow> ground_truth (t' ! j) = prediction x)
               \<and> (q \<le> 0 \<longrightarrow>
                    ground_truth (t' ! j) \<in> {Some ''Adelie'', Some ''Chinstrap'', Some ''Gentoo''}))"
      by (simp add: length_execute_update)
    with False show ?thesis
      unfolding t1 by auto
  qed
  from run len step show ?case by blast
qed

subsection \<open>Local.label is all or nothing\<close>

lemma local_label_fails:
  assumes "fault = ConnectRaises \<or> fault = SelectRaises \<or> fault = CommitRaises
      \<or> (\<exists>i<length (filter (\<lambda>r. ground_truth r = None) (stored d)). fault = UpdateRaises i)
      \<or> d = NoFile \<or> d = NoTable"
  shows "fst (local_label fault q g d) = 0 \<and> fst (snd (local_label fault q g d)) = d"
proof (cases d)
  case NoFile
  then show ?thesis by (simp add: local_label_def)
next
  case NoTable
  then show ?thesis by (simp add: local_label_def)
next
  case (Table rows)
  with assms consider "fault = ConnectRaises \<or> fault = SelectRaises \<or> fault = CommitRaises"
    | i where "i < length (unlabeled rows)" "fault = UpdateRaises i"
    by (auto simp add: stored_def unlabeled_def)
  then show ?thesis
  proof cases
    case 1
    with Table show ?thesis
      by (auto simp add: local_label_def Let_def split: prod.splits option.splits)
  next
    case 2
    with label_loop_fault_fires [of 0 i "unlabeled rows" q g rows]
    have "fst (label_loop fault q 0 (unlabeled rows) g rows) = None" by simp
    with Table show ?thesis
      by (auto simp add: local_label_def Let_def split: prod.splits option.splits)
  qed
qed

lemma local_label_succeeds:
  assumes ok: "fault = LabelOk \<or> (\<exists>i. fault = UpdateRaises i
        \<and> length (filter (\<lambda>r. ground_truth r = None) rows) \<le> i)"
    and dist: "distinct (map uuid rows)"
  shows "\<exists>t. fst (local_label fault q g (Table rows))
          = length (filter (\<lambda>r. ground_truth r = None) rows)
      \<and> fst (snd (local_label fault q g (Table rows))) = Table t
      \<and> length t = length rows
      \<and> (\<forall>i<length rows.
            (ground_truth (rows ! i) \<noteq> None \<longrightarrow> t ! i = rows ! i)
          \<and> (ground_truth (rows ! i) = None \<longrightarrow>
                t ! i = (rows ! i)\<lparr>ground_truth := ground_truth (t ! i)\<rparr>
                \<and> (ground_truth (t ! i) = prediction (rows ! i)
                     \<or> ground_truth (t ! i) \<in> {Some ''Adelie'', Some ''Chinstrap'', Some ''Gentoo''})
                \<and> (1 \<le> q \<longrightarrow> ground_truth (t ! i) = prediction (rows ! i))
                \<and> (q \<le> 0 \<longrightarrow>
                     ground_truth (t ! i) \<in> {Some ''Adelie'', Some ''Chinstrap'', Some ''Gentoo''})))"
proof -
  let ?df = "unlabeled rows"
  have df: "?df = filter (\<lambda>r. ground_truth r = None) rows"
    by (simp add: unlabeled_def)
  have inj: "inj_on uuid (set rows)"
    using dist by (simp add: distinct_map)
  have ddf: "distinct (map uuid ?df)"
    using dist by (simp add: unlabeled_def distinct_map_filter)
  from ok have idle: "\<forall>k. fault = UpdateRaises k \<longrightarrow> k < 0 \<or> 0 + length ?df \<le> k"
    by (auto simp add: df)
  have loop: "label_loop fault q 0 ?df g rows = label_loop LabelOk q 0 ?df g rows"
    using idle by (rule label_loop_idle)
  from label_loop_pointwise [OF ddf, of q 0 g rows] obtain t where
    t: "fst (label_loop LabelOk q 0 ?df g rows) = Some t" "length t = length rows"
    and each: "\<forall>j<length rows.
           (uuid (rows ! j) \<notin> uuid ` set ?df \<longrightarrow> t ! j = rows ! j)
         \<and> (\<forall>r\<in>set ?df. uuid r = uuid (rows ! j) \<longrightarrow>
               t ! j = (rows ! j)\<lparr>ground_truth := ground_truth (t ! j)\<rparr>
               \<and> (ground_truth (t ! j) = prediction r
                    \<or> ground_truth (t ! j) \<in> {Some ''Adelie'', Some ''Chinstrap'', Some ''Gentoo''})
               \<and> (1 \<le> q \<longrightarrow> ground_truth (t ! j) = prediction r)
               \<and> (q \<le> 0 \<longrightarrow>
                    ground_truth (t ! j) \<in> {Some ''Adelie'', Some ''Chinstrap'', Some ''Gentoo''}))"
    by blast
  have rows_t: "(ground_truth (rows ! i) \<noteq> None \<longrightarrow> t ! i = rows ! i)
          \<and> (ground_truth (rows ! i) = None \<longrightarrow>
                t ! i = (rows ! i)\<lparr>ground_truth := ground_truth (t ! i)\<rparr>
                \<and> (ground_truth (t ! i) = prediction (rows ! i)
                     \<or> ground_truth (t ! i) \<in> {Some ''Adelie'', Some ''Chinstrap'', Some ''Gentoo''})
                \<and> (1 \<le> q \<longrightarrow> ground_truth (t ! i) = prediction (rows ! i))
                \<and> (q \<le> 0 \<longrightarrow>
                     ground_truth (t ! i) \<in> {Some ''Adelie'', Some ''Chinstrap'', Some ''Gentoo''}))"
    if i: "i < length rows" for i
  proof (cases "ground_truth (rows ! i) = None")
    case True
    with i have "rows ! i \<in> set ?df" by (simp add: unlabeled_def)
    with each i True show ?thesis by blast
  next
    case False
    have "uuid (rows ! i) \<notin> uuid ` set ?df"
    proof
      assume "uuid (rows ! i) \<in> uuid ` set ?df"
      then obtain r where r: "r \<in> set rows" "ground_truth r = None" "uuid r = uuid (rows ! i)"
        by (auto simp add: unlabeled_def)
      with inj i have "r = rows ! i" by (auto dest: inj_onD)
      with r False show False by simp
    qed
    with each i have "t ! i = rows ! i" by simp
    with False show ?thesis by auto
  qed
  have out: "fst (local_label fault q g (Table rows)) = length ?df
      \<and> fst (snd (local_label fault q g (Table rows))) = Table t"
  proof (cases "?df = []")
    case True
    with t(1) have "t = rows" by simp
    with True show ?thesis by (simp add: local_label_def)
  next
    case False
    from ok have "fault \<noteq> ConnectRaises" "fault \<noteq> SelectRaises" "fault \<noteq> CommitRaises"
      by auto
    with False loop t(1) show ?thesis
      by (auto simp add: local_label_def Let_def split: prod.splits option.splits)
  qed
  from out t(2) rows_t show ?thesis
    unfolding df by blast
qed

text \<open>
  Claim C7. A call of \<open>Local.label\<close> fails when a statement raises: the connection,
  the \<open>SELECT\<close>, the \<open>COMMIT\<close>, or the \<open>UPDATE\<close> of one of the rows that the \<open>SELECT\<close>
  found without ground truth. On every failure, and when there is no file or no table,
  \<open>label\<close> returns 0 and the database is the one it found: no row is changed, though
  updates may have been executed before the failure. When nothing fails, on a table
  whose rows have distinct identifiers, \<open>label\<close> returns the number of rows that had no
  ground truth and leaves the committed table in which each of them has received its
  label and every other row, and every other column, is as before. The label of a row
  is its prediction or one of the three species; it is the prediction when the accuracy
  is 1 or more, and one of the three species when the accuracy is 0 or less.
\<close>

theorem label_atomic:
  "(fault = ConnectRaises \<or> fault = SelectRaises \<or> fault = CommitRaises
      \<or> (\<exists>i<length (filter (\<lambda>r. ground_truth r = None) (stored d)). fault = UpdateRaises i)
      \<or> d = NoFile \<or> d = NoTable
    \<longrightarrow> fst (local_label fault q g d) = 0 \<and> fst (snd (local_label fault q g d)) = d)
   \<and> (\<not> (fault = ConnectRaises \<or> fault = SelectRaises \<or> fault = CommitRaises
          \<or> (\<exists>i<length (filter (\<lambda>r. ground_truth r = None) (stored d)). fault = UpdateRaises i))
       \<and> d = Table rows \<and> distinct (map uuid rows)
    \<longrightarrow> (\<exists>t. fst (local_label fault q g d) = length (filter (\<lambda>r. ground_truth r = None) rows)
          \<and> fst (snd (local_label fault q g d)) = Table t
          \<and> length t = length rows
          \<and> (\<forall>i<length rows.
                (ground_truth (rows ! i) \<noteq> None \<longrightarrow> t ! i = rows ! i)
              \<and> (ground_truth (rows ! i) = None \<longrightarrow>
                    t ! i = (rows ! i)\<lparr>ground_truth := ground_truth (t ! i)\<rparr>
                    \<and> (ground_truth (t ! i) = prediction (rows ! i)
                         \<or> ground_truth (t ! i) \<in> {Some ''Adelie'', Some ''Chinstrap'', Some ''Gentoo''})
                    \<and> (1 \<le> q \<longrightarrow> ground_truth (t ! i) = prediction (rows ! i))
                    \<and> (q \<le> 0 \<longrightarrow>
                         ground_truth (t ! i)
                           \<in> {Some ''Adelie'', Some ''Chinstrap'', Some ''Gentoo''})))))"
proof (intro conjI impI)
  assume "fault = ConnectRaises \<or> fault = SelectRaises \<or> fault = CommitRaises
      \<or> (\<exists>i<length (filter (\<lambda>r. ground_truth r = None) (stored d)). fault = UpdateRaises i)
      \<or> d = NoFile \<or> d = NoTable"
  then have "fst (local_label fault q g d) = 0 \<and> fst (snd (local_label fault q g d)) = d"
    by (rule local_label_fails)
  then show "fst (local_label fault q g d) = 0" and "fst (snd (local_label fault q g d)) = d"
    by simp_all
next
  assume a: "\<not> (fault = ConnectRaises \<or> fault = SelectRaises \<or> fault = CommitRaises
          \<or> (\<exists>i<length (filter (\<lambda>r. ground_truth r = None) (stored d)). fault = UpdateRaises i))
       \<and> d = Table rows \<and> distinct (map uuid rows)"
  then have d: "d = Table rows" and dist: "distinct (map uuid rows)" by simp_all
  from a d have ok: "fault = LabelOk \<or> (\<exists>i. fault = UpdateRaises i
        \<and> length (filter (\<lambda>r. ground_truth r = None) rows) \<le> i)"
    by (cases fault) (auto simp add: stored_def not_less)
  from local_label_succeeds [OF ok dist, of q g] d
  show "\<exists>t. fst (local_label fault q g d) = length (filter (\<lambda>r. ground_truth r = None) rows)
          \<and> fst (snd (local_label fault q g d)) = Table t
          \<and> length t = length rows
          \<and> (\<forall>i<length rows.
                (ground_truth (rows ! i) \<noteq> None \<longrightarrow> t ! i = rows ! i)
              \<and> (ground_truth (rows ! i) = None \<longrightarrow>
                    t ! i = (rows ! i)\<lparr>ground_truth := ground_truth (t ! i)\<rparr>
                    \<and> (ground_truth (t ! i) = prediction (rows ! i)
                         \<or> ground_truth (t ! i) \<in> {Some ''Adelie'', Some ''Chinstrap'', Some ''Gentoo''})
                    \<and> (1 \<le> q \<longrightarrow> ground_truth (t ! i) = prediction (rows ! i))
                    \<and> (q \<le> 0 \<longrightarrow>
                         ground_truth (t ! i)
                           \<in> {Some ''Adelie'', Some ''Chinstrap'', Some ''Gentoo''})))"
    by simp
qed

text \<open>
  On the scenario store, the second of three \<open>UPDATE\<close> statements raises: the result is
  0 and the store is unchanged, though the first \<open>UPDATE\<close> had been executed. On the
  reviewed table nothing fails, with accuracy 1: the result is 1, the row that had its
  ground truth keeps it, the other one has its prediction \<open>Chinstrap\<close> as ground truth.
\<close>

theorem label_atomic_witness:
  "(\<exists>i<length (filter (\<lambda>r. ground_truth r = None) (stored scenario)). UpdateRaises 1 = UpdateRaises i)
   \<and> fst (local_label (UpdateRaises 1) 1 (\<lambda>_. 0) scenario) = 0
   \<and> fst (snd (local_label (UpdateRaises 1) 1 (\<lambda>_. 0) scenario)) = scenario
   \<and> distinct (map uuid reviewed)
   \<and> fst (local_label LabelOk 1 (\<lambda>_. 0) (Table reviewed)) = 1
   \<and> (\<exists>t. fst (snd (local_label LabelOk 1 (\<lambda>_. 0) (Table reviewed))) = Table t
        \<and> length t = 2 \<and> t ! 0 = reviewed ! 0
        \<and> t ! 1 = (reviewed ! 1)\<lparr>ground_truth := Some ''Chinstrap''\<rparr>)"
proof -
  have fires: "\<exists>i<length (filter (\<lambda>r. ground_truth r = None) (stored scenario)).
      UpdateRaises 1 = UpdateRaises i"
    by (simp add: scenario_rows stored_def)
  with label_atomic [of "UpdateRaises 1" scenario 1 "\<lambda>_. 0"]
  have failed: "fst (local_label (UpdateRaises 1) 1 (\<lambda>_. 0) scenario) = 0
      \<and> fst (snd (local_label (UpdateRaises 1) 1 (\<lambda>_. 0) scenario)) = scenario"
    by blast
  have dist: "distinct (map uuid reviewed)"
    by (simp add: reviewed_def)
  have quiet: "\<not> (LabelOk = ConnectRaises \<or> LabelOk = SelectRaises \<or> LabelOk = CommitRaises
      \<or> (\<exists>i<length (filter (\<lambda>r. ground_truth r = None) (stored (Table reviewed))).
            LabelOk = UpdateRaises i))"
    by simp
  have count: "length (filter (\<lambda>r. ground_truth r = None) reviewed) = 1"
    and len: "length reviewed = 2"
    and first: "ground_truth (reviewed ! 0) \<noteq> None"
    and second: "ground_truth (reviewed ! 1) = None"
      "prediction (reviewed ! 1) = Some ''Chinstrap''"
    by (simp_all add: reviewed_def)
  from label_atomic [of LabelOk "Table reviewed" 1 "\<lambda>_. 0" reviewed] quiet dist
  obtain t where t: "fst (local_label LabelOk 1 (\<lambda>_. 0) (Table reviewed))
          = length (filter (\<lambda>r. ground_truth r = None) reviewed)"
      "fst (snd (local_label LabelOk 1 (\<lambda>_. 0) (Table reviewed))) = Table t"
      "length t = length reviewed"
    and each: "\<forall>i<length reviewed.
          (ground_truth (reviewed ! i) \<noteq> None \<longrightarrow> t ! i = reviewed ! i)
        \<and> (ground_truth (reviewed ! i) = None \<longrightarrow>
              t ! i = (reviewed ! i)\<lparr>ground_truth := ground_truth (t ! i)\<rparr>
              \<and> ((1::real) \<le> 1 \<longrightarrow> ground_truth (t ! i) = prediction (reviewed ! i)))"
    by blast
  have zero_lt: "0 < length reviewed" and one_lt: "1 < length reviewed"
    using len by simp_all
  have le: "(1::real) \<le> 1" by simp
  from each [rule_format, OF zero_lt] first have zero: "t ! 0 = reviewed ! 0" by blast
  from each [rule_format, OF one_lt] second(1) le
  have a: "t ! 1 = (reviewed ! 1)\<lparr>ground_truth := ground_truth (t ! 1)\<rparr>"
    and "ground_truth (t ! 1) = prediction (reviewed ! 1)"
    by blast+
  from this(2) second(2) have b: "ground_truth (t ! 1) = Some ''Chinstrap''"
    by (rule trans)
  from a have one: "t ! 1 = (reviewed ! 1)\<lparr>ground_truth := Some ''Chinstrap''\<rparr>"
    unfolding b .
  from t(2,3) len zero one
  have "\<exists>t. fst (snd (local_label LabelOk 1 (\<lambda>_. 0) (Table reviewed))) = Table t
        \<and> length t = 2 \<and> t ! 0 = reviewed ! 0
        \<and> t ! 1 = (reviewed ! 1)\<lparr>ground_truth := Some ''Chinstrap''\<rparr>"
    by (intro exI [of _ t]) simp
  moreover from t(1) count have "fst (local_label LabelOk 1 (\<lambda>_. 0) (Table reviewed)) = 1"
    by simp
  ultimately show ?thesis
    using fires failed dist by (intro conjI) simp_all
qed

subsection \<open>What Local.label counts\<close>

text \<open>
  Claim C8, as the code has it. In the scenario store \<open>load(10)\<close> returns three rows,
  one of them with a null prediction (the stored row has a null confidence too; \<open>load\<close>
  does not select that column), and \<open>label(1.0)\<close> returns 3: the row saved without
  output has no ground truth either, so it is counted. In general \<open>label\<close> returns the
  number of rows whose ground truth was null, which is 0 when there is none.
\<close>

theorem label_counts_unlabeled_rows:
  "(\<exists>rs. local_load scenario 10 = Inr (Some rs) \<and> length rs = 3
       \<and> length (filter (\<lambda>r. sample_prediction r = None) rs) = 1)
   \<and> length (filter (\<lambda>r. prediction r = None \<and> confidence r = None) (stored scenario)) = 1
   \<and> fst (local_label LabelOk 1 g scenario) = 3
   \<and> fst (local_label LabelOk q g (Table rows)) = length (unlabeled rows)"
proof -
  have "\<exists>rs. local_load scenario 10 = Inr (Some rs) \<and> length rs = 3
       \<and> length (filter (\<lambda>r. sample_prediction r = None) rs) = 1"
    by (simp add: scenario_rows local_load_def order_by_date_desc_def sql_limit_def select_sample_def
        sqlite_integer_def)
  moreover have "length (filter (\<lambda>r. prediction r = None \<and> confidence r = None) (stored scenario)) = 1"
    by (simp add: scenario_rows stored_def)
  moreover have "fst (local_label LabelOk 1 g scenario) = 3"
    by (simp add: scenario_rows local_label_count unlabeled_def)
  ultimately show ?thesis
    by (simp add: local_label_count)
qed

text \<open>The claim says 2 for the scenario; the code returns 3.\<close>

theorem label_scenario_counterexample:
  "fst (local_label LabelOk 1 (\<lambda>_. 0) scenario) = 3
   \<and> fst (local_label LabelOk 1 (\<lambda>_. 0) scenario) \<noteq> 2"
  by (simp add: scenario_rows local_label_count unlabeled_def)

subsection \<open>invoke\<close>

text \<open>
  Claim C6, at the input where it fails. When the endpoint cannot be reached, or the
  call times out, \<open>Sagemaker.invoke\<close> raises; \<open>Local.invoke\<close> returns \<open>None\<close> there.
\<close>

theorem sagemaker_invoke_raises:
  "sagemaker_invoke (\<lambda>payload. Unreachable) payload = Inl TransportError
   \<and> sagemaker_invoke (\<lambda>payload. TimedOut) payload = Inl TransportError
   \<and> local_invoke (\<lambda>payload. Unreachable) payload = Inr None
   \<and> local_invoke (\<lambda>payload. TimedOut) payload = Inr None"
  by (simp add: sagemaker_invoke_def local_invoke_def)

text \<open>\<open>Local.invoke\<close> never raises.\<close>

lemma local_invoke_never_raises: "\<exists>r. local_invoke post payload = Inr r"
  by (simp add: local_invoke_def split: reply.splits)

subsection \<open>Local.label with accuracy 1.0\<close>

lemma label_loop_quality_one:
  assumes "\<forall>r\<in>set rs. \<forall>x\<in>set t. uuid x = uuid r \<longrightarrow> prediction x = prediction r"
  shows "fst (label_loop LabelOk 1 i rs g t)
    = Some (map (\<lambda>x. if uuid x \<in> uuid ` set rs then x\<lparr>ground_truth := prediction x\<rparr> else x) t)"
  using assms
proof (induction rs arbitrary: i g t)
  case Nil
  then show ?case by simp
next
  case (Cons r rs)
  let ?t = "execute_update (prediction r) (uuid r) t"
  have same: "?t = map (\<lambda>x. if uuid x = uuid r then x\<lparr>ground_truth := prediction x\<rparr> else x) t"
    unfolding execute_update_def using Cons.prems by (intro map_cong) auto
  have "\<forall>r'\<in>set rs. \<forall>x\<in>set ?t. uuid x = uuid r' \<longrightarrow> prediction x = prediction r'"
    using Cons.prems by (auto simp add: execute_update_def)
  from Cons.IH [OF this]
  have "fst (label_loop LabelOk 1 (Suc i) rs (snd (draw g)) ?t)
    = Some (map (\<lambda>x. if uuid x \<in> uuid ` set rs then x\<lparr>ground_truth := prediction x\<rparr> else x) ?t)" .
  also have "map (\<lambda>x. if uuid x \<in> uuid ` set rs then x\<lparr>ground_truth := prediction x\<rparr> else x) ?t
    = map (\<lambda>x. if uuid x \<in> uuid ` set (r # rs) then x\<lparr>ground_truth := prediction x\<rparr> else x) t"
    unfolding same by (auto simp add: comp_def)
  finally show ?case
    by (simp add: get_fake_label_one)
qed

text \<open>
  Claim C2. In a table whose rows have distinct identifiers (the data model's invariant
  on \<open>uuid\<close>), when the storage layer works, \<open>label\<close> with accuracy 1.0 leaves the
  table with every row that had a null ground truth now holding its own prediction as
  ground truth, and every other row, and every other column, as before. The draw of
  \<open>random.random()\<close> is below 1.0 whatever the generator gives.
\<close>

theorem label_quality_one:
  assumes "distinct (map uuid rows)"
  shows "fst (snd (local_label LabelOk 1 g (Table rows)))
    = Table (map (\<lambda>r. if ground_truth r = None then r\<lparr>ground_truth := prediction r\<rparr> else r) rows)"
proof -
  have inj: "inj_on uuid (set rows)"
    using assms by (simp add: distinct_map)
  have pre: "\<forall>r\<in>set (unlabeled rows). \<forall>x\<in>set rows. uuid x = uuid r \<longrightarrow> prediction x = prediction r"
    using inj by (auto simp add: unlabeled_def dest: inj_onD)
  have found: "uuid x \<in> uuid ` set (unlabeled rows) \<longleftrightarrow> ground_truth x = None" if "x \<in> set rows" for x
    using inj that by (auto simp add: unlabeled_def dest: inj_onD)
  have eq: "map (\<lambda>x. if uuid x \<in> uuid ` set (unlabeled rows) then x\<lparr>ground_truth := prediction x\<rparr> else x) rows
    = map (\<lambda>r. if ground_truth r = None then r\<lparr>ground_truth := prediction r\<rparr> else r) rows"
    by (intro map_cong) (simp_all add: found)
  show ?thesis
  proof (cases "unlabeled rows = []")
    case True
    then have "\<forall>x\<in>set rows. ground_truth x \<noteq> None"
      by (simp add: unlabeled_def filter_empty_conv)
    then have "map (\<lambda>r. if ground_truth r = None then r\<lparr>ground_truth := prediction r\<rparr> else r) rows = rows"
      by (intro map_idI) auto
    with True show ?thesis by (simp add: local_label_def)
  next
    case False
    from label_loop_quality_one [OF pre, of 0 g]
    have "fst (label_loop LabelOk 1 0 (unlabeled rows) g rows)
      = Some (map (\<lambda>r. if ground_truth r = None then r\<lparr>ground_truth := prediction r\<rparr> else r) rows)"
      by (simp only: eq)
    with False show ?thesis
      by (auto simp add: local_label_def Let_def split: prod.splits option.splits)
  qed
qed

text \<open>The row with ground truth \<open>Gentoo\<close> keeps it; the other one gets \<open>Chinstrap\<close>.\<close>

theorem label_quality_one_witness:
  "distinct (map uuid reviewed)
   \<and> fst (snd (local_label LabelOk 1 (\<lambda>_. 0) (Table reviewed)))
     = Table
        [\<lparr>features = biscoe, prediction = Some ''Adelie'', confidence = Some (PyFloat 0.9), date = Some 1,
          ground_truth = Some ''Gentoo'', uuid = ''a''\<rparr>,
         \<lparr>features = biscoe, prediction = Some ''Chinstrap'', confidence = Some (PyFloat 0.7), date = Some 2,
          ground_truth = Some ''Chinstrap'', uuid = ''b''\<rparr>]"
proof -
  have d: "distinct (map uuid reviewed)"
    by (simp add: reviewed_def)
  from label_quality_one [OF d, of "\<lambda>_. 0"] d show ?thesis
    by (simp add: reviewed_def)
qed

subsection \<open>Local.save\<close>

lemma comprehension_present:
  "\<forall>i\<in>set items. key i \<noteq> None \<Longrightarrow> comprehension key items = Inr (map (\<lambda>i. the (key i)) items)"
  by (induction items) (auto simp add: getitem_def)

lemma comprehension_missing:
  "i \<in> set items \<Longrightarrow> key i = None \<Longrightarrow> comprehension key items = Inl KeyError"
proof (induction items)
  case Nil
  then show ?case by simp
next
  case (Cons a items)
  show ?case
  proof (cases "key a")
    case None
    then show ?thesis by (simp add: getitem_def)
  next
    case (Some v)
    with Cons.prems have "i \<in> set items" by auto
    from Cons.IH [OF this Cons.prems(2)] Some show ?thesis by (simp add: getitem_def)
  qed
qed

lemma comprehension_cases:
  "comprehension key items = Inl KeyError
   \<or> comprehension key items = Inr (map (\<lambda>i. the (key i)) items)"
proof (cases "\<forall>i\<in>set items. key i \<noteq> None")
  case True
  then show ?thesis by (simp add: comprehension_present)
next
  case False
  then obtain i where "i \<in> set items" "key i = None" by blast
  then show ?thesis by (simp add: comprehension_missing)
qed






lemma stored_connect: "stored (connect d) = stored d"
  by (cases d) (simp_all add: connect_def stored_def)

lemma stored_to_sql: "stored (to_sql rows d) = stored d @ rows"
  by (simp add: to_sql_def stored_def)




text \<open>
  An integer that does not fit SQLite's 64 bits: \<open>save\<close> raises \<open>OverflowError\<close>, and
  leaves the table it has created, without rows.
\<close>

lemma save_overflows:
  "local_save SaveOk 1 (\<lambda>i. ''a'') [biscoe\<lparr>body_mass_g := Some (PyInt (2 ^ 63))\<rparr>] None NoFile
     = (Inl OverflowError, Table [])"
  by (simp add: local_save_def set_outputs_def new_entry_def add_uuids_def with_uuid_def
      bindable_row_def bindable_def sqlite_integer_def biscoe_def nan_penguin_def stored_def upt_rec)




lemma set_outputs_raises:
  assumes "items \<noteq> []"
    and "(\<exists>i\<in>set items. prediction_key i = None \<or> confidence_key i = None)
      \<or> (xs \<noteq> [] \<and> length items \<noteq> length xs)"
  shows "set_outputs (Some items) (map (new_entry now) xs) = Inl KeyError
    \<or> set_outputs (Some items) (map (new_entry now) xs) = Inl ValueError"
proof (rule ccontr)
  assume no: "\<not> ?thesis"
  let ?ps = "map (\<lambda>i. the (prediction_key i)) items"
  let ?cs = "map (\<lambda>i. the (confidence_key i)) items"
  from no assms(1) have p: "comprehension prediction_key items = Inr ?ps"
    using comprehension_cases [of prediction_key items] by (auto simp add: set_outputs_def)
  with no assms(1) obtain frame1 where
    f1: "setitem (\<lambda>p e. e\<lparr>prediction := p\<rparr>) ?ps (map (new_entry now) xs) = Inr frame1"
    by (cases "setitem (\<lambda>p e. e\<lparr>prediction := p\<rparr>) ?ps (map (new_entry now) xs)")
      (auto simp add: set_outputs_def setitem_def split: if_splits)
  with no assms(1) p have c: "comprehension confidence_key items = Inr ?cs"
    using comprehension_cases [of confidence_key items] by (auto simp add: set_outputs_def)
  from p have "\<forall>i\<in>set items. prediction_key i \<noteq> None"
    using comprehension_missing [of _ items prediction_key] by force
  moreover from c have "\<forall>i\<in>set items. confidence_key i \<noteq> None"
    using comprehension_missing [of _ items confidence_key] by force
  ultimately have "xs \<noteq> []" "length items \<noteq> length xs"
    using assms(2) by auto
  with f1 show False
    by (auto simp add: setitem_def split: if_splits)
qed

text \<open>
  Claim C10. \<open>save\<close> catches \<open>sqlite3.Error\<close> only: when the connection or the write
  fails it returns normally. When the connection works and the output list is not
  empty, an item without the \<open>prediction\<close> or the \<open>confidence\<close> key, or a list whose
  length differs from that of an input with rows, makes \<open>save\<close> raise \<open>KeyError\<close> or
  \<open>ValueError\<close> to the caller before \<open>to_sql\<close> runs: the stored rows are those from
  before, and the database is unchanged but for the empty file that the connection
  creates when there was none.
\<close>

theorem save_raises:
  assumes "fault \<noteq> ConnectFails" and "items \<noteq> []"
    and "(\<exists>i\<in>set items. prediction_key i = None \<or> confidence_key i = None)
      \<or> (model_input \<noteq> [] \<and> length items \<noteq> length model_input)"
  shows "(local_save fault now uuid4 model_input (Some items) d = (Inl KeyError, connect d)
      \<or> local_save fault now uuid4 model_input (Some items) d = (Inl ValueError, connect d))
    \<and> stored (connect d) = stored d \<and> (d \<noteq> NoFile \<longrightarrow> connect d = d)
    \<and> local_save ConnectFails now uuid4 model_input model_output d = (Inr (), d)
    \<and> (\<forall>frame. set_outputs model_output (map (new_entry now) model_input) = Inr frame
          \<longrightarrow> local_save WriteFails now uuid4 model_input model_output d = (Inr (), connect d))"
proof -
  from set_outputs_raises [OF assms(2,3), of now] assms(1)
  have "local_save fault now uuid4 model_input (Some items) d = (Inl KeyError, connect d)
      \<or> local_save fault now uuid4 model_input (Some items) d = (Inl ValueError, connect d)"
    by (auto simp add: local_save_def)
  moreover have "d \<noteq> NoFile \<longrightarrow> connect d = d"
    by (simp add: connect_def)
  moreover have "local_save ConnectFails now uuid4 model_input model_output d = (Inr (), d)"
    by (simp add: local_save_def)
  moreover have "\<forall>frame. set_outputs model_output (map (new_entry now) model_input) = Inr frame
          \<longrightarrow> local_save WriteFails now uuid4 model_input model_output d = (Inr (), connect d)"
    by (simp add: local_save_def)
  ultimately show ?thesis
    by (simp add: stored_connect)
qed

text \<open>Two inputs and one output on the scenario store: \<open>ValueError\<close>, store unchanged.\<close>

theorem save_raises_witness:
  "SaveOk \<noteq> ConnectFails \<and> one_output \<noteq> [] \<and> [biscoe, biscoe] \<noteq> []
   \<and> length one_output \<noteq> length [biscoe, biscoe]
   \<and> local_save SaveOk 1 (\<lambda>i. ''a'') [biscoe, biscoe] (Some one_output) scenario
      = (Inl ValueError, scenario)"
proof -
  have a: "SaveOk \<noteq> ConnectFails" and b: "one_output \<noteq> []"
    and c: "(\<exists>i\<in>set one_output. prediction_key i = None \<or> confidence_key i = None)
      \<or> ([biscoe, biscoe] \<noteq> [] \<and> length one_output \<noteq> length [biscoe, biscoe])"
    by (simp_all add: one_output_def)
  have "local_save SaveOk 1 (\<lambda>i. ''a'') [biscoe, biscoe] (Some one_output) scenario
      \<noteq> (Inl KeyError, connect scenario)"
    by (simp add: one_output_def local_save_def set_outputs_def setitem_def getitem_def)
  with save_raises [OF a b c, of 1 "\<lambda>i. ''a''" scenario None]
  have "local_save SaveOk 1 (\<lambda>i. ''a'') [biscoe, biscoe] (Some one_output) scenario
      = (Inl ValueError, connect scenario)"
    by blast
  then show ?thesis
    by (simp add: one_output_def connect_def scenario_rows)
qed

subsection \<open>Local.save followed by Local.load\<close>





text \<open>A limit that does not fit SQLite's 64 bits: \<open>load\<close> raises.\<close>

lemma load_overflows: "local_load (Table rows) (2 ^ 63) = Inl OverflowError"
  by (simp add: local_load_def sqlite_integer_def)




subsection \<open>The join of captured rows and ground truth\<close>

lemma cumcount_from_length: "length (cumcount_from seen ks) = length ks"
  by (induction ks arbitrary: seen) auto

lemma cumcount_from_nth:
  "i < length ks \<Longrightarrow> cumcount_from seen ks ! i = count_list (seen @ take i ks) (ks ! i)"
proof (induction ks arbitrary: seen i)
  case Nil
  then show ?case by simp
next
  case (Cons k ks)
  show ?case
  proof (cases i)
    case 0
    then show ?thesis by simp
  next
    case (Suc j)
    with Cons.prems have "j < length ks" by simp
    from Cons.IH [OF this, of "seen @ [k]"] Suc show ?thesis by simp
  qed
qed

lemma length_cumcount: "length (cumcount ks) = length ks"
  by (simp add: cumcount_def cumcount_from_length)

lemma cumcount_nth: "i < length ks \<Longrightarrow> cumcount ks ! i = count_list (take i ks) (ks ! i)"
  by (simp add: cumcount_def cumcount_from_nth)

lemma count_list_take_less:
  assumes "i < j" "j \<le> length ks"
  shows "count_list (take i ks) (ks ! i) < count_list (take j ks) (ks ! i)"
proof -
  have i: "i < length ks" using assms by simp
  obtain d where j: "j = Suc i + d" using assms(1) less_iff_Suc_add by auto
  have "take j ks = take (Suc i) ks @ take d (drop (Suc i) ks)"
    unfolding j by (rule take_add)
  also have "take (Suc i) ks = take i ks @ [ks ! i]"
    using i by (rule take_Suc_conv_app_nth)
  finally have "take j ks = (take i ks @ [ks ! i]) @ take d (drop (Suc i) ks)" .
  then have "count_list (take j ks) (ks ! i)
      = count_list (take i ks) (ks ! i) + 1 + count_list (take d (drop (Suc i) ks)) (ks ! i)"
    by simp
  then show ?thesis by simp
qed

lemma length_keys: "length (keys es) = length es"
  by (simp add: keys_def length_cumcount)

lemma keys_nth: "i < length es \<Longrightarrow> keys es ! i = (es ! i, count_list (take i es) (es ! i))"
  by (simp add: keys_def length_cumcount cumcount_nth)

lemma keys_nth_neq:
  assumes "i < j" "j < length es"
  shows "keys es ! i \<noteq> keys es ! j"
proof
  assume eq: "keys es ! i = keys es ! j"
  from assms have i: "i < length es" by simp
  from eq have "fst (keys es ! i) = fst (keys es ! j)" and "snd (keys es ! i) = snd (keys es ! j)"
    by simp_all
  then have e: "es ! i = es ! j"
    and c: "count_list (take i es) (es ! i) = count_list (take j es) (es ! j)"
    by (simp_all add: keys_nth [OF i] keys_nth [OF assms(2)])
  from count_list_take_less [of i j es] assms
  have "count_list (take i es) (es ! i) < count_list (take j es) (es ! i)"
    by simp
  with e c show False by simp
qed

lemma distinct_keys: "distinct (keys es)"
proof -
  have "keys es ! i \<noteq> keys es ! j" if "i < length es" "j < length es" "i \<noteq> j" for i j
  proof (cases "i < j")
    case True
    then show ?thesis using that keys_nth_neq by blast
  next
    case False
    with that have "j < i" by simp
    then have "keys es ! j \<noteq> keys es ! i" using that keys_nth_neq by blast
    then show ?thesis by simp
  qed
  then show ?thesis
    by (simp add: distinct_conv_nth length_keys)
qed

lemma filter_key_singleton:
  assumes "distinct (map snd right)" and "m \<in> set right"
  shows "filter (\<lambda>(g, k'). k' = snd m) right = [m]"
  using assms
proof (induction right)
  case Nil
  then show ?case by simp
next
  case (Cons a right)
  show ?case
  proof (cases "a = m")
    case True
    with Cons.prems(1) have "snd m \<notin> snd ` set right" by simp
    then have "\<forall>p\<in>set right. snd p \<noteq> snd m" by (metis imageI)
    then have "filter (\<lambda>(g, k'). k' = snd m) right = []"
      by (simp add: filter_empty_conv case_prod_unfold)
    with True show ?thesis by (simp add: case_prod_unfold)
  next
    case False
    with Cons.prems have m: "m \<in> set right" by simp
    with Cons.prems(1) have "snd a \<noteq> snd m" by force
    with Cons.IH [OF _ m] Cons.prems(1) show ?thesis by (simp add: case_prod_unfold)
  qed
qed

lemma merge_left_map:
  assumes "distinct (map snd right)"
  shows "merge_left left right
    = map (\<lambda>(l, k). l\<lparr>species :=
        (case filter (\<lambda>(g, k'). k' = k) right of [] \<Rightarrow> None | m # ms \<Rightarrow> snd (fst m))\<rparr>) left"
proof -
  have one: "(case filter (\<lambda>(g, k'). k' = k) right of
        [] \<Rightarrow> [l\<lparr>species := None\<rparr>]
      | ms \<Rightarrow> map (\<lambda>(g, k'). l\<lparr>species := snd g\<rparr>) ms)
    = [l\<lparr>species := (case filter (\<lambda>(g, k'). k' = k) right of [] \<Rightarrow> None | m # ms \<Rightarrow> snd (fst m))\<rparr>]"
    for l :: captured and k
  proof (cases "\<exists>m\<in>set right. snd m = k")
    case True
    then obtain m where m: "m \<in> set right" "snd m = k" by blast
    from filter_key_singleton [OF assms m(1)] m(2)
    have "filter (\<lambda>(g, k'). k' = k) right = [m]" by simp
    then show ?thesis by (simp add: case_prod_unfold)
  next
    case False
    then have "filter (\<lambda>(g, k'). k' = k) right = []"
      by (simp add: filter_empty_conv case_prod_unfold)
    then show ?thesis by simp
  qed
  have "merge_left left right
    = concat (map (\<lambda>(l, k). [l\<lparr>species :=
        (case filter (\<lambda>(g, k'). k' = k) right of [] \<Rightarrow> None | m # ms \<Rightarrow> snd (fst m))\<rparr>]) left)"
    unfolding merge_left_def by (simp add: one)
  also have "\<dots> = map (\<lambda>(l, k). l\<lparr>species :=
        (case filter (\<lambda>(g, k'). k' = k) right of [] \<Rightarrow> None | m # ms \<Rightarrow> snd (fst m))\<rparr>) left"
    by (induction left) auto
  finally show ?thesis .
qed

lemma length_merge_left:
  "distinct (map snd right) \<Longrightarrow> length (merge_left left right) = length left"
  by (simp add: merge_left_map)

lemma merge_left_nth:
  assumes "distinct (map snd right)" and "i < length left"
  shows "merge_left left right ! i = (fst (left ! i))\<lparr>species := species (merge_left left right ! i)\<rparr>"
    and "m \<in> set right \<Longrightarrow> snd m = snd (left ! i) \<Longrightarrow> species (merge_left left right ! i) = snd (fst m)"
    and "\<forall>m\<in>set right. snd m \<noteq> snd (left ! i) \<Longrightarrow> species (merge_left left right ! i) = None"
proof -
  let ?sp = "case filter (\<lambda>(g, k'). k' = snd (left ! i)) right of [] \<Rightarrow> None | m # ms \<Rightarrow> snd (fst m)"
  have nth: "merge_left left right ! i = (fst (left ! i))\<lparr>species := ?sp\<rparr>"
    using assms(2) by (simp add: merge_left_map [OF assms(1)] case_prod_unfold)
  then show "merge_left left right ! i = (fst (left ! i))\<lparr>species := species (merge_left left right ! i)\<rparr>"
    by simp
  show "species (merge_left left right ! i) = snd (fst m)"
    if "m \<in> set right" "snd m = snd (left ! i)"
  proof -
    from filter_key_singleton [OF assms(1) that(1)] that(2)
    have "filter (\<lambda>(g, k'). k' = snd (left ! i)) right = [m]" by simp
    with nth show ?thesis by simp
  qed
  show "species (merge_left left right ! i) = None" if "\<forall>m\<in>set right. snd m \<noteq> snd (left ! i)"
  proof -
    from that have "filter (\<lambda>(g, k'). k' = snd (left ! i)) right = []"
      by (simp add: filter_empty_conv case_prod_unfold)
    with nth show ?thesis by simp
  qed
qed


lemma length_join_ground_truth: "length (join_ground_truth data truth) = length data"
  by (simp add: join_ground_truth_def Let_def length_merge_left length_keys distinct_keys)

lemma join_rows:
  "length (join_ground_truth (map (\<lambda>r. r\<lparr>species := None\<rparr>) rows) truth) = length rows
   \<and> (\<forall>i<length rows.
         join_ground_truth (map (\<lambda>r. r\<lparr>species := None\<rparr>) rows) truth ! i
           = (rows ! i)\<lparr>species :=
               species (join_ground_truth (map (\<lambda>r. r\<lparr>species := None\<rparr>) rows) truth ! i)\<rparr>
         \<and> (\<forall>j<length (explode truth).
               keys (map fst (explode truth)) ! j = keys (map event_id rows) ! i
               \<longrightarrow> species (join_ground_truth (map (\<lambda>r. r\<lparr>species := None\<rparr>) rows) truth ! i)
                     = snd (explode truth ! j))
         \<and> ((\<forall>j<length (explode truth).
                keys (map fst (explode truth)) ! j \<noteq> keys (map event_id rows) ! i)
               \<longrightarrow> species (join_ground_truth (map (\<lambda>r. r\<lparr>species := None\<rparr>) rows) truth ! i)
                     = None))"
proof -
  define data where "data = map (\<lambda>r. r\<lparr>species := None\<rparr>) rows"
  define gt where "gt = explode truth"
  define joined where "joined = join_ground_truth data truth"
  define left where "left = zip data (keys (map event_id data))"
  define right where "right = zip gt (keys (map fst gt))"
  have ev: "map event_id data = map event_id rows"
    by (simp add: data_def comp_def)
  have len_data: "length data = length rows"
    by (simp add: data_def)
  have len_left: "length left = length rows"
    by (simp add: left_def length_keys len_data)
  have dist: "distinct (map snd right)"
    by (simp add: right_def length_keys distinct_keys)
  have left_nth: "left ! i = (data ! i, keys (map event_id rows) ! i)" if "i < length rows" for i
    using that by (simp add: left_def length_keys ev len_data)
  have in_right: "(gt ! j, keys (map fst gt) ! j) \<in> set right" if "j < length gt" for j
    using that by (auto simp add: right_def set_zip length_keys)
  have right_keys: "\<exists>j<length gt. snd m = keys (map fst gt) ! j" if "m \<in> set right" for m
    using that by (auto simp add: right_def set_zip length_keys)
  have rows: "length joined = length rows
      \<and> (\<forall>i<length rows.
            joined ! i = (rows ! i)\<lparr>species := species (joined ! i)\<rparr>
            \<and> (\<forall>j<length gt. keys (map fst gt) ! j = keys (map event_id rows) ! i
                  \<longrightarrow> species (joined ! i) = snd (gt ! j))
            \<and> ((\<forall>j<length gt. keys (map fst gt) ! j \<noteq> keys (map event_id rows) ! i)
                  \<longrightarrow> species (joined ! i) = None))"
  proof (cases "rows = [] \<or> truth = []")
    case True
    then show ?thesis
      by (auto simp add: joined_def join_ground_truth_def data_def gt_def explode_def)
  next
    case False
    then have j: "joined = merge_left left right"
      by (simp add: joined_def join_ground_truth_def data_def left_def right_def gt_def Let_def)
    have "joined ! i = (rows ! i)\<lparr>species := species (joined ! i)\<rparr>
        \<and> (\<forall>j<length gt. keys (map fst gt) ! j = keys (map event_id rows) ! i
              \<longrightarrow> species (joined ! i) = snd (gt ! j))
        \<and> ((\<forall>j<length gt. keys (map fst gt) ! j \<noteq> keys (map event_id rows) ! i)
              \<longrightarrow> species (joined ! i) = None)" if i: "i < length rows" for i
    proof (intro conjI allI impI)
      from i have il: "i < length left" by (simp add: len_left)
      from merge_left_nth(1) [OF dist il] left_nth [OF i] i
      show "joined ! i = (rows ! i)\<lparr>species := species (joined ! i)\<rparr>"
        by (simp add: j data_def)
      show "species (joined ! i) = snd (gt ! k)"
        if "k < length gt" "keys (map fst gt) ! k = keys (map event_id rows) ! i" for k
        using merge_left_nth(2) [OF dist il in_right [OF that(1)]] that(2) left_nth [OF i]
        by (simp add: j)
      show "species (joined ! i) = None"
        if "\<forall>j<length gt. keys (map fst gt) ! j \<noteq> keys (map event_id rows) ! i"
      proof -
        have "\<forall>m\<in>set right. snd m \<noteq> snd (left ! i)"
          using that right_keys left_nth [OF i] by fastforce
        from merge_left_nth(3) [OF dist il this] show ?thesis by (simp add: j)
      qed
    qed
    with j dist len_left show ?thesis
      by (simp add: length_merge_left)
  qed
  then show ?thesis
    by (simp add: data_def gt_def joined_def)
qed

text \<open>
  Claim C1, as the code has it. \<open>rows\<close> is any captured table, its \<open>species\<close> column
  set to null as \<open>process_row\<close> does; \<open>truth\<close> is any ground-truth table, exploded to
  \<open>gt\<close>; both get the running counter within their \<open>event_id\<close> group as second key.
  The join returns the captured rows, each once and in their order, changed in the
  \<open>species\<close> column only, and nothing else. The keys of \<open>gt\<close> are distinct, so at most
  one of its rows has the key of a captured row: when there is one, the captured row
  carries its label; when there is none, null. A label can itself be null (an empty
  list explodes to one row with a null label), so the ground truth is set exactly when
  a row of \<open>gt\<close> has the same key and a label.
\<close>

theorem join_is_left_outer:
  "let data = map (\<lambda>r. r\<lparr>species := None\<rparr>) rows;
       joined = join_ground_truth data truth;
       gt = explode truth
   in length joined = length rows
      \<and> distinct (keys (map fst gt))
      \<and> (\<forall>i<length rows.
            joined ! i = (rows ! i)\<lparr>species := species (joined ! i)\<rparr>
            \<and> (\<forall>j<length gt. keys (map fst gt) ! j = keys (map event_id rows) ! i
                  \<longrightarrow> species (joined ! i) = snd (gt ! j))
            \<and> ((\<forall>j<length gt. keys (map fst gt) ! j \<noteq> keys (map event_id rows) ! i)
                  \<longrightarrow> species (joined ! i) = None)
            \<and> ((species (joined ! i) \<noteq> None)
                  = (\<exists>j<length gt. keys (map fst gt) ! j = keys (map event_id rows) ! i
                        \<and> snd (gt ! j) \<noteq> None)))"
proof -
  define data where "data = map (\<lambda>r. r\<lparr>species := None\<rparr>) rows"
  define gt where "gt = explode truth"
  define joined where "joined = join_ground_truth data truth"
  have rows: "length joined = length rows
      \<and> (\<forall>i<length rows.
            joined ! i = (rows ! i)\<lparr>species := species (joined ! i)\<rparr>
            \<and> (\<forall>j<length gt. keys (map fst gt) ! j = keys (map event_id rows) ! i
                  \<longrightarrow> species (joined ! i) = snd (gt ! j))
            \<and> ((\<forall>j<length gt. keys (map fst gt) ! j \<noteq> keys (map event_id rows) ! i)
                  \<longrightarrow> species (joined ! i) = None))"
    using join_rows [of rows truth] by (simp add: data_def gt_def joined_def)
  have "(species (joined ! i) \<noteq> None)
      = (\<exists>j<length gt. keys (map fst gt) ! j = keys (map event_id rows) ! i \<and> snd (gt ! j) \<noteq> None)"
    if "i < length rows" for i
    using rows that by (metis (no_types, lifting))
  with rows have "length joined = length rows
      \<and> distinct (keys (map fst gt))
      \<and> (\<forall>i<length rows.
            joined ! i = (rows ! i)\<lparr>species := species (joined ! i)\<rparr>
            \<and> (\<forall>j<length gt. keys (map fst gt) ! j = keys (map event_id rows) ! i
                  \<longrightarrow> species (joined ! i) = snd (gt ! j))
            \<and> ((\<forall>j<length gt. keys (map fst gt) ! j \<noteq> keys (map event_id rows) ! i)
                  \<longrightarrow> species (joined ! i) = None)
            \<and> ((species (joined ! i) \<noteq> None)
                  = (\<exists>j<length gt. keys (map fst gt) ! j = keys (map event_id rows) ! i
                        \<and> snd (gt ! j) \<noteq> None)))"
    by (simp add: distinct_keys)
  then show ?thesis
    by (simp add: Let_def data_def gt_def joined_def)
qed


text \<open>Three captured rows, one label for \<open>E1\<close>: the first row of \<open>E1\<close> gets it.\<close>

theorem join_witness:
  "0 < length three_captured \<and> 0 < length (explode one_label)
   \<and> keys (map fst (explode one_label)) ! 0 = keys (map event_id three_captured) ! 0
   \<and> species (join_ground_truth (map (\<lambda>r. r\<lparr>species := None\<rparr>) three_captured) one_label ! 0)
      = Some ''Adelie''"
proof -
  have i: "0 < length three_captured"
    by (simp add: three_captured_def)
  have j: "0 < length (explode one_label)"
    by (simp add: one_label_def explode_def)
  have k: "keys (map fst (explode one_label)) ! 0 = keys (map event_id three_captured) ! 0"
    by (simp add: one_label_def explode_def three_captured_def keys_def cumcount_def capture_e1_def)
  have l: "snd (explode one_label ! 0) = Some ''Adelie''"
    by (simp add: one_label_def explode_def)
  from join_is_left_outer [of three_captured one_label, unfolded Let_def] i j k
  have "species (join_ground_truth (map (\<lambda>r. r\<lparr>species := None\<rparr>) three_captured) one_label ! 0)
      = snd (explode one_label ! 0)"
    by blast
  with i j k l show ?thesis by simp
qed

text \<open>
  The claim as stated, ground truth set exactly when a ground-truth row with the key
  exists, fails for the empty label list: the row with the key exists, and the
  captured row's ground truth is null.
\<close>

theorem join_null_label_counterexample:
  "0 < length (explode no_label)
   \<and> keys (map fst (explode no_label)) ! 0 = keys (map event_id [capture_e1]) ! 0
   \<and> species (join_ground_truth (map (\<lambda>r. r\<lparr>species := None\<rparr>) [capture_e1]) no_label ! 0) = None"
  by (simp add: no_label_def explode_def keys_def cumcount_def capture_e1_def join_ground_truth_def
      merge_left_def)

subsection \<open>Sagemaker.load\<close>




text \<open>
  Rows were captured and no item of theirs has the key \<open>confidence\<close>: \<open>load\<close> raises
  \<open>KeyError\<close>.
\<close>

lemma sagemaker_load_without_confidence:
  assumes "load_collected_data_files sort_values (capture_objects s) = Inr data"
    and "load_ground_truth_files (ground_truth_objects s) = Inr truth"
    and "data \<noteq> []" and "\<not> has_column confidence_key (concat (capture_objects s))"
  shows "sagemaker_load sort_values s limit = Inl KeyError"
proof -
  from assms(3) have "join_ground_truth data truth \<noteq> []"
    using length_join_ground_truth [of data truth] by auto
  with assms show ?thesis
    by (simp add: sagemaker_load_def load_collected_data_def)
qed





subsection \<open>A store that is not there\<close>

text \<open>
  Without a database file \<open>Local.load\<close> returns \<open>None\<close> and \<open>Local.label\<close> returns 0,
  whatever the storage layer would do; with nothing under the capture prefix
  \<open>Sagemaker.load\<close> and \<open>Sagemaker.label\<close> return the empty table and 0, provided that
  the loader of the ground truth returns.
\<close>

lemma absent_store:
  "local_load NoFile limit = Inr None"
  "local_label fault q g NoFile = (0, NoFile, g)"
  "capture_objects s = [] \<Longrightarrow> load_ground_truth_files (ground_truth_objects s) = Inr truth \<Longrightarrow>
     sagemaker_load sort_values s limit = Inr [] \<and> sagemaker_label sort_values s q g = Inr (0, None, g)"
  by (simp_all add: local_load_def local_label_def sagemaker_load_def sagemaker_label_def
      load_unlabeled_data_def load_collected_data_def load_collected_data_files_def load_files_def
      join_ground_truth_def)

text \<open>
  Claim C3 does not hold of \<open>Sagemaker\<close>: the ground truth is loaded before the test for
  captured data, and its loader raises when the objects under its prefix have no
  line. With no capture object and one empty object under the ground-truth prefix,
  \<open>load\<close> and \<open>label\<close> raise \<open>ValueError\<close>, for every limit, every quality and every
  generator.
\<close>

theorem load_raises_on_marker_object:
  "capture_objects marker_only = []
   \<and> sagemaker_load sort_values marker_only limit = Inl ValueError
   \<and> sagemaker_label sort_values marker_only q g = Inl ValueError"
  by (simp add: marker_only_def sagemaker_load_def sagemaker_label_def load_unlabeled_data_def
      load_collected_data_def load_collected_data_files_def load_ground_truth_files_def
      load_files_def pd_concat_def)


end
